theory Spec2Isabelle
  imports
    Main
    "HOL-Library.AList"
    "HOL-Library.Char_ord"
    "HOL-Library.List_Lexorder"
    "HOL-Library.Multiset"
    "HOL-Library.Sublist"
begin

section \<open>Data model\<close>

text \<open>
  JSON-compatible Python values. A Python \<open>dict\<close> with string keys is an association
  list in insertion order; \<open>d[k] = v\<close> is \<^const>\<open>AList.update\<close> (replace in place, or
  append), \<open>d.get(k)\<close> is \<^const>\<open>map_of\<close>.
\<close>

datatype json =
    JNull
  | JBool bool
  | JNum int
  | JStr string
  | JArr "json list"
  | JObj "(string \<times> json) list"

type_synonym fragment = "(string \<times> json) list"

text \<open>Python truthiness, as \<open>if title:\<close> tests it.\<close>

fun truthy :: "json \<Rightarrow> bool" where
  "truthy JNull = False"
| "truthy (JBool b) = b"
| "truthy (JNum n) = (n \<noteq> 0)"
| "truthy (JStr s) = (s \<noteq> [])"
| "truthy (JArr xs) = (xs \<noteq> [])"
| "truthy (JObj kvs) = (kvs \<noteq> [])"

text \<open>The native Python types that are keys of \<open>TYPE_MAP\<close>, and any other type.\<close>

datatype pytype =
    py_dict
  | py_list
  | datetime_time
  | datetime_timedelta
  | datetime_datetime
  | datetime_date
  | uuid_UUID
  | text_type
  | binary_type
  | decimal_Decimal
  | py_set
  | py_tuple
  | py_float
  | py_int
  | py_bool
  | other_type string

text \<open>
  A field class is its name and its chain of base classes; \<open>fields_Field\<close> is the root of the
  host framework's hierarchy. \<open>field.__class__ in mapping\<close> compares classes for
  identity, \<open>isinstance\<close> follows the chain.
\<close>

datatype fclass = fields_Field | Sub string fclass

primrec issubclass :: "fclass \<Rightarrow> fclass \<Rightarrow> bool" where
  "issubclass fields_Field d = (d = fields_Field)"
| "issubclass (Sub n p) d = (Sub n p = d \<or> issubclass p d)"

definition strict_subclass :: "fclass \<Rightarrow> fclass \<Rightarrow> bool" where
  "strict_subclass c d = (c \<noteq> d \<and> issubclass c d)"

primrec class_name :: "fclass \<Rightarrow> string" where
  "class_name fields_Field = ''Field''"
| "class_name (Sub n p) = n"

definition fields_String :: fclass where "fields_String = Sub ''String'' fields_Field"
definition fields_DateTime :: fclass where "fields_DateTime = Sub ''DateTime'' fields_Field"
definition fields_Integer :: fclass where "fields_Integer = Sub ''Integer'' fields_Field"
definition fields_Email :: fclass where "fields_Email = Sub ''Email'' fields_String"
definition fields_Url :: fclass where "fields_Url = Sub ''Url'' fields_String"
definition fields_Dict :: fclass where "fields_Dict = Sub ''Dict'' fields_Field"
definition fields_List :: fclass where "fields_List = Sub ''List'' fields_Field"
definition fields_LocalDateTime :: fclass where
  "fields_LocalDateTime = Sub ''LocalDateTime'' fields_DateTime"
definition fields_Nested :: fclass where "fields_Nested = Sub ''Nested'' fields_Field"

text \<open>
  Validators: the class decides the dispatch; the parameters are read by the handlers
  only.
\<close>

datatype vclass = validate_Length | validate_OneOf | validate_Range | other_validator string

record validator =
  validator_class :: vclass
  params :: json

text \<open>
  A bound field as the translator reads it. \<open>attribute\<close> is \<open>None\<close> or a string;
  \<open>default_value\<close> is \<open>None\<close> for the \<open>missing\<close> sentinel; \<open>nested\<close> names the schema
  that \<open>field.nested()\<close> instantiates; \<open>jsonschema_type_mapping\<close> is \<open>None\<close> when the
  field has no \<open>_jsonschema_type_mapping\<close> attribute and otherwise what the call
  returns; \<open>rendering\<close> is \<open>str(field)\<close>, computed by the host framework.
\<close>

record field =
  name :: string
  attribute :: "string option"
  field_class :: fclass
  required :: bool
  default_value :: "json option"
  validators :: "validator list"
  metadata :: fragment
  nested :: string
  many :: bool
  jsonschema_type_mapping :: "fragment option"
  rendering :: string

text \<open>
  A schema instance: its \<open>TYPE_MAPPING\<close> items and the items of its \<open>fields\<close>
  dict (\<open>schema_fields\<close>), both in iteration order. The keys of a dict are distinct.
\<close>

record schema =
  TYPE_MAPPING :: "(pytype \<times> fclass) list"
  schema_fields :: "(string \<times> field) list"

datatype error = ValueError string | KeyError pytype | AttributeError string | RecursionError

section \<open>The type mapping table\<close>

fun TYPE_MAP :: "pytype \<Rightarrow> fragment option" where
  "TYPE_MAP py_dict = Some [(''type'', JStr ''object'')]"
| "TYPE_MAP py_list = Some [(''type'', JStr ''array'')]"
| "TYPE_MAP datetime_time = Some [(''type'', JStr ''string''), (''format'', JStr ''time'')]"
| "TYPE_MAP datetime_timedelta = Some [(''type'', JStr ''string'')]"
| "TYPE_MAP datetime_datetime =
     Some [(''type'', JStr ''string''), (''format'', JStr ''date-time'')]"
| "TYPE_MAP datetime_date = Some [(''type'', JStr ''string''), (''format'', JStr ''date'')]"
| "TYPE_MAP uuid_UUID = Some [(''type'', JStr ''string''), (''format'', JStr ''uuid'')]"
| "TYPE_MAP text_type = Some [(''type'', JStr ''string'')]"
| "TYPE_MAP binary_type = Some [(''type'', JStr ''string'')]"
| "TYPE_MAP decimal_Decimal =
     Some [(''type'', JStr ''number''), (''format'', JStr ''decimal'')]"
| "TYPE_MAP py_set = Some [(''type'', JStr ''array'')]"
| "TYPE_MAP py_tuple = Some [(''type'', JStr ''array'')]"
| "TYPE_MAP py_float = Some [(''type'', JStr ''number''), (''format'', JStr ''float'')]"
| "TYPE_MAP py_int = Some [(''type'', JStr ''number''), (''format'', JStr ''integer'')]"
| "TYPE_MAP py_bool = Some [(''type'', JStr ''boolean'')]"
| "TYPE_MAP (other_type t) = None"

text \<open>
  The mapping built at the start of \<open>get_properties\<close>: \<open>obj.TYPE_MAPPING\<close> inverted
  (a later item overwrites an earlier one with the same field class), then the five
  fixed entries.
\<close>

definition field_mapping :: "(pytype \<times> fclass) list \<Rightarrow> fclass \<Rightarrow> pytype option" where
  "field_mapping tm =
     (fold (\<lambda>(k, v) m. m(v \<mapsto> k)) tm Map.empty)
       (fields_Email \<mapsto> text_type,
        fields_Dict \<mapsto> py_dict,
        fields_List \<mapsto> py_list,
        fields_Url \<mapsto> text_type,
        fields_LocalDateTime \<mapsto> datetime_datetime)"

section \<open>The field translator\<close>

text \<open>\<open>field.attribute or field.name\<close>: the attribute when it is a non-empty string.\<close>

definition attribute_or_name :: "field \<Rightarrow> string" where
  "attribute_or_name f =
     (case attribute f of
        None \<Rightarrow> name f
      | Some a \<Rightarrow> if a \<noteq> [] then a else name f)"

definition from_python_type :: "field \<Rightarrow> pytype \<Rightarrow> error + fragment" where
  "from_python_type f pytype =
     (case TYPE_MAP pytype of
        None \<Rightarrow> Inl (KeyError pytype)
      | Some items \<Rightarrow>
          (let json_schema =
                 fold (\<lambda>(key, val). AList.update key val) items
                   [(''title'', JStr (attribute_or_name f))]
           in Inr (case default_value f of
                     None \<Rightarrow> json_schema
                   | Some d \<Rightarrow> AList.update ''default'' d json_schema)))"

text \<open>
  The constraint handlers live in the package's validation module; the translator only
  dispatches to them, so they are parameters here. A handler may raise.
\<close>

type_synonym handler = "fragment \<Rightarrow> field \<Rightarrow> validator \<Rightarrow> schema \<Rightarrow> error + fragment"

record handlers =
  handle_length :: handler
  handle_one_of :: handler
  handle_range :: handler

fun FIELD_VALIDATORS :: "handlers \<Rightarrow> vclass \<Rightarrow> handler option" where
  "FIELD_VALIDATORS hs validate_Length = Some (handle_length hs)"
| "FIELD_VALIDATORS hs validate_OneOf = Some (handle_one_of hs)"
| "FIELD_VALIDATORS hs validate_Range = Some (handle_range hs)"
| "FIELD_VALIDATORS hs (other_validator c) = None"

text \<open>The loop over \<open>field.validators\<close>.\<close>

fun apply_validators ::
  "handlers \<Rightarrow> schema \<Rightarrow> field \<Rightarrow> fragment \<Rightarrow> validator list \<Rightarrow> error + fragment" where
  "apply_validators hs obj f sch [] = Inr sch"
| "apply_validators hs obj f sch (v # vs) =
     (case FIELD_VALIDATORS hs (validator_class v) of
        None \<Rightarrow> apply_validators hs obj f sch vs
      | Some h \<Rightarrow>
          (case h sch f v obj of
             Inl e \<Rightarrow> Inl e
           | Inr sch' \<Rightarrow> apply_validators hs obj f sch' vs))"

text \<open>\<open>d.get(k, default)\<close>; Python's \<open>None\<close> is \<^const>\<open>JNull\<close>.\<close>

definition dict_get :: "fragment \<Rightarrow> string \<Rightarrow> json \<Rightarrow> json" where
  "dict_get d k dflt = (case map_of d k of None \<Rightarrow> dflt | Some v \<Rightarrow> v)"

text \<open>
  \<open>apply_metadata\<close>. Calling \<open>.get\<close> on a \<open>metadata\<close> entry that is not a dict raises
  \<open>AttributeError\<close>.
\<close>

definition apply_metadata :: "field \<Rightarrow> fragment \<Rightarrow> error + fragment" where
  "apply_metadata f sch =
     (case dict_get (metadata f) ''metadata'' (JObj []) of
        JObj md \<Rightarrow>
          (let title = dict_get (metadata f) ''title'' (dict_get md ''title'' JNull);
               description =
                 dict_get (metadata f) ''description'' (dict_get md ''description'' JNull);
               sch1 = (if truthy title then AList.update ''title'' title sch else sch);
               sch2 = (if truthy description
                       then AList.update ''description'' description sch1 else sch1)
           in Inr sch2)
      | _ \<Rightarrow> Inl (AttributeError ''get''))"

text \<open>
  \<open>_from_nested_schema\<close>. \<open>dump\<close> stands for the recursive \<open>cls().dump(...).data\<close>,
  a parameter here (\<open>dump_fuel\<close> and \<open>dump_stack\<close> below close the recursion);
  \<open>None\<close> is a call that is not decided. \<open>env\<close> resolves \<open>field.nested()\<close> to the
  schema instance it creates.
\<close>

definition from_nested_schema ::
  "(schema \<Rightarrow> (error + fragment) option) \<Rightarrow> (string \<Rightarrow> schema) \<Rightarrow> field
     \<Rightarrow> (error + fragment) option" where
  "from_nested_schema dump env f =
     (case dump (env (nested f)) of
        None \<Rightarrow> None
      | Some (Inl e) \<Rightarrow> Some (Inl e)
      | Some (Inr sub) \<Rightarrow>
          Some (Inr (if many f
                     then [(''type'', JArr (if required f then [JStr ''array'']
                                            else [JStr ''array'', JStr ''null''])),
                           (''items'', JObj sub)]
                     else sub)))"

text \<open>The \<open>if\<close>/\<open>elif\<close> chain of \<open>get_properties\<close> that picks the starting fragment.\<close>

definition starting_schema ::
  "(schema \<Rightarrow> (error + fragment) option) \<Rightarrow> (string \<Rightarrow> schema)
     \<Rightarrow> (fclass \<Rightarrow> pytype option) \<Rightarrow> field \<Rightarrow> (error + fragment) option" where
  "starting_schema dump env mapping f =
     (case jsonschema_type_mapping f of
        Some s \<Rightarrow> Some (Inr s)
      | None \<Rightarrow>
          (case mapping (field_class f) of
             Some pytype \<Rightarrow> Some (from_python_type f pytype)
           | None \<Rightarrow>
               if issubclass (field_class f) fields_Nested
               then from_nested_schema dump env f
               else Some (Inl (ValueError (''unsupported field type '' @ rendering f)))))"

text \<open>One iteration of the loop of \<open>get_properties\<close>, up to the final fragment.\<close>

definition field_schema ::
  "handlers \<Rightarrow> (schema \<Rightarrow> (error + fragment) option) \<Rightarrow> (string \<Rightarrow> schema) \<Rightarrow> schema
     \<Rightarrow> (fclass \<Rightarrow> pytype option) \<Rightarrow> field \<Rightarrow> (error + fragment) option" where
  "field_schema hs dump env obj mapping f =
     (case starting_schema dump env mapping f of
        None \<Rightarrow> None
      | Some (Inl e) \<Rightarrow> Some (Inl e)
      | Some (Inr s) \<Rightarrow>
          Some (case apply_validators hs obj f s (validators f) of
                  Inl e \<Rightarrow> Inl e
                | Inr s' \<Rightarrow> apply_metadata f s'))"

section \<open>The schema translator\<close>

text \<open>\<open>sorted(obj.fields.items())\<close>: the keys are distinct, so the key decides.\<close>

definition sorted_items :: "(string \<times> field) list \<Rightarrow> (string \<times> field) list" where
  "sorted_items items = sort_key fst items"

fun properties_loop ::
  "handlers \<Rightarrow> (schema \<Rightarrow> (error + fragment) option) \<Rightarrow> (string \<Rightarrow> schema) \<Rightarrow> schema
     \<Rightarrow> (fclass \<Rightarrow> pytype option) \<Rightarrow> fragment \<Rightarrow> (string \<times> field) list
     \<Rightarrow> (error + fragment) option" where
  "properties_loop hs dump env obj mapping properties [] = Some (Inr properties)"
| "properties_loop hs dump env obj mapping properties ((field_name, f) # rest) =
     (case field_schema hs dump env obj mapping f of
        None \<Rightarrow> None
      | Some (Inl e) \<Rightarrow> Some (Inl e)
      | Some (Inr s) \<Rightarrow>
          properties_loop hs dump env obj mapping
            (AList.update (name f) (JObj s) properties) rest)"

definition get_properties ::
  "handlers \<Rightarrow> (schema \<Rightarrow> (error + fragment) option) \<Rightarrow> (string \<Rightarrow> schema) \<Rightarrow> schema
     \<Rightarrow> (error + fragment) option" where
  "get_properties hs dump env obj =
     properties_loop hs dump env obj (field_mapping (TYPE_MAPPING obj)) []
       (sorted_items (schema_fields obj))"

definition get_required :: "schema \<Rightarrow> string list" where
  "get_required obj =
     fold (\<lambda>(field_name, f) req. if required f then req @ [name f] else req)
       (sorted_items (schema_fields obj)) []"

text \<open>
  \<open>JSONSchema().dump(obj).data\<close>: the three declared fields of the class, in the
  order of their declaration; an exception of \<open>get_properties\<close> propagates.
\<close>

definition JSONSchema_dump ::
  "handlers \<Rightarrow> (schema \<Rightarrow> (error + fragment) option) \<Rightarrow> (string \<Rightarrow> schema) \<Rightarrow> schema
     \<Rightarrow> (error + fragment) option" where
  "JSONSchema_dump hs dump env obj =
     (case get_properties hs dump env obj of
        None \<Rightarrow> None
      | Some (Inl e) \<Rightarrow> Some (Inl e)
      | Some (Inr props) \<Rightarrow>
          Some (Inr [(''properties'', JObj props),
                     (''type'', JStr ''object''),
                     (''required'', JArr (map JStr (get_required obj)))]))"

text \<open>
  The source has no bound of its own on the recursion through nested schemas: every
  nested call of \<open>dump\<close> is a call on the interpreter's call stack.
  \<open>dump_fuel n\<close> is the translation as far as it is decided within \<open>n\<close> nested
  calls of \<open>dump\<close>, whatever the call stack: \<open>None\<close> where more calls are needed.
\<close>

primrec dump_fuel ::
  "handlers \<Rightarrow> (string \<Rightarrow> schema) \<Rightarrow> nat \<Rightarrow> schema \<Rightarrow> (error + fragment) option" where
  "dump_fuel hs env 0 = (\<lambda>obj. None)"
| "dump_fuel hs env (Suc n) = JSONSchema_dump hs (dump_fuel hs env n) env"


text \<open>
  \<open>extends d d'\<close>: wherever the call \<open>d\<close> has returned, \<open>d'\<close> returns the same.
\<close>

definition extends :: "(schema \<Rightarrow> 'a option) \<Rightarrow> (schema \<Rightarrow> 'a option) \<Rightarrow> bool" where
  "extends d d' = (\<forall>s r. d s = Some r \<longrightarrow> d' s = Some r)"

section \<open>Example inputs\<close>

text \<open>
  Handlers for the examples: the length handler records the bound, the enumeration
  handler the choices, and the range handler raises.
\<close>

definition demo_handlers :: handlers where
  "demo_handlers =
     \<lparr>handle_length = (\<lambda>s f v ob. Inr (AList.update ''maxLength'' (params v) s)),
      handle_one_of = (\<lambda>s f v ob. Inr (AList.update ''enum'' (params v) s)),
      handle_range = (\<lambda>s f v ob. Inl (ValueError ''range''))\<rparr>"

text \<open>
  A field with the constructor's defaults. Its rendering follows the host framework's
  \<open>__repr__\<close> of a field: the class name and the constructor arguments.
\<close>

definition plain_field :: "string \<Rightarrow> fclass \<Rightarrow> field" where
  "plain_field n c =
     \<lparr>name = n, attribute = None, field_class = c, required = False,
      default_value = None, validators = [], metadata = [], nested = [], many = False,
      jsonschema_type_mapping = None,
      rendering =
        ''<fields.'' @ class_name c @
        ''(default=<marshmallow.missing>, attribute=None, validate=None, required=False)>''\<rparr>"

definition demo_TYPE_MAPPING :: "(pytype \<times> fclass) list" where
  "demo_TYPE_MAPPING =
     [(text_type, fields_String), (binary_type, fields_String),
      (datetime_datetime, fields_DateTime), (py_int, fields_Integer)]"

definition age_field :: field where
  "age_field = (plain_field ''age'' fields_Integer)\<lparr>required := True\<rparr>"

definition name_field :: field where
  "name_field =
     (plain_field ''name'' fields_String)
       \<lparr>validators := [\<lparr>validator_class = validate_Length, params = JNum 50\<rparr>]\<rparr>"

definition person :: schema where
  "person =
     \<lparr>TYPE_MAPPING = demo_TYPE_MAPPING,
      schema_fields = [(''name'', name_field), (''age'', age_field)]\<rparr>"

definition members_field :: field where
  "members_field =
     (plain_field ''members'' fields_Nested)\<lparr>nested := ''Person'', many := True\<rparr>"

definition lead_field :: field where
  "lead_field =
     (plain_field ''lead'' fields_Nested)\<lparr>nested := ''Person'', required := True\<rparr>"

definition team :: schema where
  "team =
     \<lparr>TYPE_MAPPING = demo_TYPE_MAPPING,
      schema_fields = [(''members'', members_field), (''lead'', lead_field)]\<rparr>"

definition demo_env :: "string \<Rightarrow> schema" where
  "demo_env n = (if n = ''Team'' then team else person)"

definition person_output :: fragment where
  "person_output =
     [(''properties'',
       JObj [(''age'', JObj [(''title'', JStr ''age''), (''type'', JStr ''number''),
                             (''format'', JStr ''integer'')]),
             (''name'', JObj [(''title'', JStr ''name''), (''type'', JStr ''string''),
                              (''maxLength'', JNum 50)])]),
      (''type'', JStr ''object''),
      (''required'', JArr [JStr ''age''])]"

text \<open>
  The metadata merger as the specification words it: the value found for a key is the
  direct field-level one when the key is present there, else the one of the nested
  \<open>metadata\<close> sub-mapping; a key of the fragment is set only when a truthy value was
  found.
\<close>

definition spec_found_metadata :: "field \<Rightarrow> string \<Rightarrow> json option" where
  "spec_found_metadata f key =
     (case map_of (metadata f) key of
        Some v \<Rightarrow> Some v
      | None \<Rightarrow>
          (case map_of (metadata f) ''metadata'' of
             Some (JObj md) \<Rightarrow> map_of md key
           | _ \<Rightarrow> None))"

definition spec_set_if_found :: "string \<Rightarrow> json option \<Rightarrow> fragment \<Rightarrow> fragment" where
  "spec_set_if_found key found sch =
     (case found of
        None \<Rightarrow> sch
      | Some v \<Rightarrow> if truthy v then AList.update key v sch else sch)"

definition spec_metadata_merger :: "field \<Rightarrow> fragment \<Rightarrow> fragment" where
  "spec_metadata_merger f sch =
     spec_set_if_found ''description'' (spec_found_metadata f ''description'')
       (spec_set_if_found ''title'' (spec_found_metadata f ''title'') sch)"

definition titled_field :: field where
  "titled_field =
     (plain_field ''name'' fields_String)
       \<lparr>metadata :=
          [(''title'', JStr ''Full name''),
           (''metadata'', JObj [(''title'', JStr ''Name''), (''description'', JStr ''As printed'')])]\<rparr>"

text \<open>
  A field of a class without a mapping entry, and a field of a user-defined subclass of
  \<open>fields.String\<close>.
\<close>

definition total_field :: field where
  "total_field = plain_field ''total'' (Sub ''Function'' fields_Field)"

definition invoice :: schema where
  "invoice =
     \<lparr>TYPE_MAPPING = demo_TYPE_MAPPING,
      schema_fields = [(''total'', total_field), (''age'', age_field)]\<rparr>"

definition slug_field :: field where
  "slug_field = plain_field ''slug'' (Sub ''Slug'' fields_String)"

definition article :: schema where
  "article =
     \<lparr>TYPE_MAPPING = demo_TYPE_MAPPING, schema_fields = [(''slug'', slug_field)]\<rparr>"


text \<open>A schema whose own \<open>TYPE_MAPPING\<close> names the nested field class.\<close>

definition odd_schema :: schema where
  "odd_schema =
     \<lparr>TYPE_MAPPING = [(py_dict, fields_Nested)],
      schema_fields = [(''lead'', lead_field)]\<rparr>"

definition colour_field :: field where
  "colour_field =
     (plain_field ''colour'' fields_Nested)
       \<lparr>nested := ''Person'',
        jsonschema_type_mapping := Some [(''type'', JStr ''string''), (''format'', JStr ''colour'')]\<rparr>"

text \<open>
  What the theorems about validators and about the field order assume of the handlers,
  which the translator calls with the field and with the schema: that a handler does
  not read the field's list of validators, and that a handler returns the same for two
  schemas.
\<close>

definition handlers_ignore_validators :: "handlers \<Rightarrow> bool" where
  "handlers_ignore_validators hs =
     (\<forall>h \<in> {handle_length hs, handle_one_of hs, handle_range hs}.
        \<forall>s g v ob ws. h s (g\<lparr>validators := ws\<rparr>) v ob = h s g v ob)"

definition handlers_agree_on :: "handlers \<Rightarrow> schema \<Rightarrow> schema \<Rightarrow> bool" where
  "handlers_agree_on hs obj obj' =
     (\<forall>h \<in> {handle_length hs, handle_one_of hs, handle_range hs}.
        \<forall>s g v. h s g v obj' = h s g v obj)"

definition regexp_validator :: validator where
  "regexp_validator = \<lparr>validator_class = other_validator ''Regexp'', params = JStr ''[a-z]+''\<rparr>"

definition person_redeclared :: schema where
  "person_redeclared =
     \<lparr>TYPE_MAPPING = demo_TYPE_MAPPING,
      schema_fields = [(''age'', age_field), (''name'', name_field)]\<rparr>"
















section \<open>Basic facts\<close>


lemma get_required_filter:
  "get_required obj =
     map (name \<circ> snd) (filter (required \<circ> snd) (sorted_items (schema_fields obj)))"
proof -
  have "fold (\<lambda>(field_name, f) req. if required f then req @ [name f] else req) xs acc =
          acc @ map (name \<circ> snd) (filter (required \<circ> snd) xs)"
    for xs :: "(string \<times> field) list" and acc
    by (induction xs arbitrary: acc) auto
  then show ?thesis by (simp add: get_required_def)
qed

lemma update_fresh: "k \<notin> fst ` set al \<Longrightarrow> AList.update k v al = al @ [(k, v)]"
  by (induction al) auto

lemma set_sorted_items [simp]: "set (sorted_items items) = set items"
  by (simp add: sorted_items_def)

lemma mset_sorted_items [simp]: "mset (sorted_items items) = mset items"
  by (simp add: sorted_items_def)

lemma sorted_sorted_items: "sorted (map fst (sorted_items items))"
  by (simp add: sorted_items_def)

lemma sorted_items_perm:
  assumes "distinct (map fst xs)" "mset ys = mset xs"
  shows "sorted_items ys = sorted_items xs"
proof -
  have only: "filter (\<lambda>x. fst k = fst x) l = [k]"
    if "distinct (map fst l)" "k \<in> set l" for k :: "string \<times> field" and l
    using that by (induction l) (auto simp: rev_image_eqI filter_empty_conv)
  let ?zs = "sort_key fst ys"
  have m: "mset ?zs = mset xs" using assms(2) by simp
  then have "mset (map fst ?zs) = mset (map fst xs)" by (metis mset_map)
  then have d: "distinct (map fst ?zs)" using assms(1) by (metis mset_eq_imp_distinct_iff)
  have "sort_key fst xs = ?zs"
  proof (rule properties_for_sort_key[OF m])
    fix k assume k: "k \<in> set ?zs"
    then have "k \<in> set xs" using m by (metis mset_eq_setD)
    then show "filter (\<lambda>x. fst k = fst x) ?zs = filter (\<lambda>x. fst k = fst x) xs"
      using only[OF d k] only[OF assms(1)] by simp
  qed simp
  then show ?thesis by (simp add: sorted_items_def)
qed

lemma from_nested_schema_mono:
  "extends d d' \<Longrightarrow> from_nested_schema d env f = Some r \<Longrightarrow> from_nested_schema d' env f = Some r"
  by (auto simp: extends_def from_nested_schema_def split: option.splits sum.splits)

lemma starting_schema_mono:
  "extends d d' \<Longrightarrow> starting_schema d env m f = Some r \<Longrightarrow> starting_schema d' env m f = Some r"
  by (auto simp: starting_schema_def split: option.splits if_splits dest: from_nested_schema_mono)

lemma field_schema_mono:
  "extends d d' \<Longrightarrow> field_schema hs d env obj m f = Some r \<Longrightarrow> field_schema hs d' env obj m f = Some r"
  unfolding field_schema_def
  by (cases "starting_schema d env m f") (auto dest!: starting_schema_mono split: sum.splits)

lemma properties_loop_mono:
  "extends d d' \<Longrightarrow> properties_loop hs d env obj m props items = Some r \<Longrightarrow>
     properties_loop hs d' env obj m props items = Some r"
proof (induction items arbitrary: props)
  case Nil
  then show ?case by simp
next
  case (Cons kf items)
  obtain k f where kf: "kf = (k, f)" by (cases kf)
  from Cons.prems(2) obtain x where x: "field_schema hs d env obj m f = Some x"
    by (auto simp: kf split: option.splits)
  with Cons.prems(1) have x': "field_schema hs d' env obj m f = Some x"
    by (rule field_schema_mono)
  show ?case
    using x x' Cons.prems(2) Cons.IH[OF Cons.prems(1)]
    by (auto simp: kf split: sum.splits)
qed

lemma JSONSchema_dump_mono:
  "extends d d' \<Longrightarrow> JSONSchema_dump hs d env obj = Some r \<Longrightarrow> JSONSchema_dump hs d' env obj = Some r"
  unfolding JSONSchema_dump_def get_properties_def
  by (auto split: option.splits sum.splits dest: properties_loop_mono)

lemma dump_fuel_Suc: "extends (dump_fuel hs env n) (dump_fuel hs env (Suc n))"
proof (induction n)
  case 0
  then show ?case by (simp add: extends_def)
next
  case (Suc n)
  show ?case
    unfolding extends_def
  proof (intro allI impI)
    fix s r
    assume "dump_fuel hs env (Suc n) s = Some r"
    then have "JSONSchema_dump hs (dump_fuel hs env n) env s = Some r" by simp
    from JSONSchema_dump_mono[OF Suc this]
    show "dump_fuel hs env (Suc (Suc n)) s = Some r" by simp
  qed
qed

lemma dump_fuel_mono:
  "dump_fuel hs env n obj = Some r \<Longrightarrow> n \<le> m \<Longrightarrow> dump_fuel hs env m obj = Some r"
proof (induction m)
  case 0
  then show ?case by simp
next
  case (Suc m)
  show ?case
  proof (cases "n = Suc m")
    case True
    with Suc.prems show ?thesis by simp
  next
    case False
    with Suc have "dump_fuel hs env m obj = Some r" by simp
    with dump_fuel_Suc[of hs env m] show ?thesis unfolding extends_def by blast
  qed
qed

lemma properties_loop_fresh:
  assumes "properties_loop hs d env obj m props items = Some (Inr out)"
    and "distinct (map (name \<circ> snd) items)"
    and "fst ` set props \<inter> (name \<circ> snd) ` set items = {}"
  shows "\<exists>ss. list_all2 (\<lambda>kf s. field_schema hs d env obj m (snd kf) = Some (Inr s)) items ss \<and>
              out = props @ map2 (\<lambda>kf s. (name (snd kf), JObj s)) items ss"
  using assms
proof (induction items arbitrary: props)
  case Nil
  then show ?case by simp
next
  case (Cons kf items)
  obtain k f where kf: "kf = (k, f)" by (cases kf)
  from Cons.prems(1) obtain s where s: "field_schema hs d env obj m f = Some (Inr s)"
    and rest: "properties_loop hs d env obj m (AList.update (name f) (JObj s) props) items =
                 Some (Inr out)"
    by (auto simp: kf split: option.splits sum.splits)
  have fresh: "name f \<notin> fst ` set props" using Cons.prems(3) by (auto simp: kf)
  then have upd: "AList.update (name f) (JObj s) props = props @ [(name f, JObj s)]"
    by (rule update_fresh)
  have d: "distinct (map (name \<circ> snd) items)" using Cons.prems(2) by (simp add: o_def)
  have "fst ` set (props @ [(name f, JObj s)]) \<inter> (name \<circ> snd) ` set items = {}"
    using Cons.prems(2,3) by (auto simp: kf)
  from Cons.IH[OF rest[unfolded upd] d this] obtain ss where
    ss: "list_all2 (\<lambda>kf s. field_schema hs d env obj m (snd kf) = Some (Inr s)) items ss"
      "out = (props @ [(name f, JObj s)]) @ map2 (\<lambda>kf s. (name (snd kf), JObj s)) items ss"
    by blast
  show ?case
    by (rule exI[of _ "s # ss"]) (simp add: kf s ss)
qed

lemma map_fst_map2:
  "length xs = length ys \<Longrightarrow> map fst (map2 (\<lambda>x y. (g x, h y)) xs ys) = map g xs"
  by (induction xs ys rule: list_induct2) auto

lemma set_get_required:
  "set (get_required obj) =
     (name \<circ> snd) ` {kf \<in> set (schema_fields obj). required (snd kf)}"
  by (simp add: get_required_filter o_def)

lemma distinct_get_required:
  assumes "distinct (map (name \<circ> snd) (schema_fields obj))"
  shows "distinct (get_required obj)"
proof -
  have "mset (map (name \<circ> snd) (sorted_items (schema_fields obj))) =
          mset (map (name \<circ> snd) (schema_fields obj))"
    by (metis mset_map mset_sorted_items)
  then have "distinct (map (name \<circ> snd) (sorted_items (schema_fields obj)))"
    using assms by (metis mset_eq_imp_distinct_iff)
  then show ?thesis
    unfolding get_required_filter by (simp add: distinct_map_filter)
qed

section \<open>Fields resolved through the type mapping table\<close>



section \<open>The \<open>required\<close> list and the \<open>properties\<close> map\<close>

text \<open>
  C2. A schema is a mapping from field names to fields, so no two of its fields carry
  the same public name. For such a schema the \<open>required\<close> list of the output holds
  exactly the public names of the fields marked required, without duplicates; every
  name in it is a key of \<open>properties\<close>; and \<open>properties\<close> has exactly one entry for
  every field, under the field's public name, holding that field's fragment.
\<close>

theorem required_and_properties:
  assumes "distinct (map (name \<circ> snd) (schema_fields obj))"
    and "get_properties hs dump env obj = Some (Inr props)"
  shows "JSONSchema_dump hs dump env obj =
           Some (Inr [(''properties'', JObj props), (''type'', JStr ''object''),
                      (''required'', JArr (map JStr (get_required obj)))]) \<and>
         set (get_required obj) =
           (name \<circ> snd) ` {kf \<in> set (schema_fields obj). required (snd kf)} \<and>
         distinct (get_required obj) \<and>
         set (get_required obj) \<subseteq> fst ` set props \<and>
         map fst props = map (name \<circ> snd) (sorted_items (schema_fields obj)) \<and>
         distinct (map fst props) \<and>
         length props = length (schema_fields obj) \<and>
         (\<forall>(k, f) \<in> set (schema_fields obj).
            \<exists>s. field_schema hs dump env obj (field_mapping (TYPE_MAPPING obj)) f =
                   Some (Inr s) \<and>
                 map_of props (name f) = Some (JObj s))"
proof -
  let ?items = "sorted_items (schema_fields obj)"
  let ?m = "field_mapping (TYPE_MAPPING obj)"
  have props: "properties_loop hs dump env obj ?m [] ?items = Some (Inr props)"
    using assms(2) by (simp add: get_properties_def)
  have out: "JSONSchema_dump hs dump env obj =
               Some (Inr [(''properties'', JObj props), (''type'', JStr ''object''),
                          (''required'', JArr (map JStr (get_required obj)))])"
    using assms(2) by (simp add: JSONSchema_dump_def)
  have "mset (map (name \<circ> snd) ?items) = mset (map (name \<circ> snd) (schema_fields obj))"
    by (metis mset_map mset_sorted_items)
  then have d: "distinct (map (name \<circ> snd) ?items)"
    using assms(1) by (metis mset_eq_imp_distinct_iff)
  from properties_loop_fresh[OF props d] obtain ss where
    ss: "list_all2 (\<lambda>kf s. field_schema hs dump env obj ?m (snd kf) = Some (Inr s)) ?items ss"
    and p: "props = map2 (\<lambda>kf s. (name (snd kf), JObj s)) ?items ss"
    by auto
  have len: "length ss = length ?items" using ss by (simp add: list_all2_lengthD)
  have keys: "map fst props = map (name \<circ> snd) ?items"
    unfolding p using map_fst_map2[OF len[symmetric], of "name \<circ> snd" JObj] by simp
  have dk: "distinct (map fst props)" using keys d by simp
  have lp: "length props = length (schema_fields obj)"
    using arg_cong[OF keys, of length] by (simp add: sorted_items_def)
  have sub: "set (get_required obj) \<subseteq> fst ` set props"
  proof -
    have "set (get_required obj) \<subseteq> set (map (name \<circ> snd) ?items)"
      unfolding get_required_filter by auto
    then show ?thesis using keys by (metis set_map)
  qed
  have each: "\<exists>s. field_schema hs dump env obj ?m f = Some (Inr s) \<and>
                  map_of props (name f) = Some (JObj s)"
    if "(k, f) \<in> set (schema_fields obj)" for k f
  proof -
    from that have "(k, f) \<in> set ?items" by simp
    then obtain i where i: "i < length ?items" "?items ! i = (k, f)"
      by (metis in_set_conv_nth)
    with ss have fs: "field_schema hs dump env obj ?m f = Some (Inr (ss ! i))"
      by (auto dest: list_all2_nthD)
    have "props ! i = (name f, JObj (ss ! i))" using i len by (simp add: p)
    moreover have "i < length props" using i len by (simp add: p)
    ultimately have "(name f, JObj (ss ! i)) \<in> set props" by (metis nth_mem)
    with dk have "map_of props (name f) = Some (JObj (ss ! i))" by simp
    with fs show ?thesis by blast
  qed
  show ?thesis
    using out set_get_required distinct_get_required[OF assms(1)] sub keys dk lp each
    by blast
qed

theorem required_and_properties_witness:
  "distinct (map (name \<circ> snd) (schema_fields person)) \<and>
   JSONSchema_dump demo_handlers (\<lambda>s. None) (\<lambda>n. person) person =
     Some (Inr [(''properties'',
                 JObj [(''age'', JObj [(''title'', JStr ''age''), (''type'', JStr ''number''),
                                       (''format'', JStr ''integer'')]),
                       (''name'', JObj [(''title'', JStr ''name''), (''type'', JStr ''string''),
                                        (''maxLength'', JNum 50)])]),
                (''type'', JStr ''object''),
                (''required'', JArr (map JStr (get_required person)))]) \<and>
   get_required person = [''age''] \<and>
   distinct (get_required person)"
proof -
  let ?props = "[(''age'', JObj [(''title'', JStr ''age''), (''type'', JStr ''number''),
                                 (''format'', JStr ''integer'')]),
                 (''name'', JObj [(''title'', JStr ''name''), (''type'', JStr ''string''),
                                  (''maxLength'', JNum 50)])]"
  have h1: "distinct (map (name \<circ> snd) (schema_fields person))" by code_simp
  have h2: "get_properties demo_handlers (\<lambda>s. None) (\<lambda>n. person) person = Some (Inr ?props)"
    by code_simp
  have r: "get_required person = [''age'']" by code_simp
  note T = required_and_properties[OF h1 h2]
  from T have a: "JSONSchema_dump demo_handlers (\<lambda>s. None) (\<lambda>n. person) person =
      Some (Inr [(''properties'', JObj ?props), (''type'', JStr ''object''),
                 (''required'', JArr (map JStr (get_required person)))])"
    by (rule conjunct1)
  from T have d: "distinct (get_required person)"
    by (elim conjE)
  show ?thesis
    by (intro conjI h1 a r d)
qed

section \<open>Nested schemas\<close>

text \<open>
  C3. For a field with the \<open>many\<close> flag that references a nested schema \<open>S\<close> whose
  translation is \<open>t\<close>, \<open>_from_nested_schema\<close> returns \<open>type: [array]\<close> when the field
  is required and \<open>type: [array, null]\<close> when it is not, with \<open>items: t\<close>; and this is
  the field's fragment when the field is dispatched to the nested branch and has no
  validators and no metadata.
\<close>

theorem nested_many_fragment:
  assumes "many f"
    and "dump_fuel hs env n (env (nested f)) = Some (Inr t)"
    and "n \<le> m"
  shows "from_nested_schema (dump_fuel hs env m) env f =
           Some (Inr [(''type'', JArr (if required f then [JStr ''array'']
                                       else [JStr ''array'', JStr ''null''])),
                      (''items'', JObj t)]) \<and>
         (jsonschema_type_mapping f = None \<and> mp (field_class f) = None \<and>
          issubclass (field_class f) fields_Nested \<and> validators f = [] \<and> metadata f = []
          \<longrightarrow> field_schema hs (dump_fuel hs env m) env obj mp f =
                Some (Inr [(''type'', JArr (if required f then [JStr ''array'']
                                            else [JStr ''array'', JStr ''null''])),
                           (''items'', JObj t)]))"
proof -
  have t: "dump_fuel hs env m (env (nested f)) = Some (Inr t)"
    using dump_fuel_mono[OF assms(2,3)] .
  have n: "from_nested_schema (dump_fuel hs env m) env f =
           Some (Inr [(''type'', JArr (if required f then [JStr ''array'']
                                       else [JStr ''array'', JStr ''null''])),
                      (''items'', JObj t)])"
    using assms(1) by (simp add: from_nested_schema_def t)
  have m: "apply_metadata f sch = Inr sch" if "metadata f = []" for sch
    using that by (simp add: apply_metadata_def dict_get_def)
  show ?thesis
    using n by (simp add: field_schema_def starting_schema_def m)
qed

theorem nested_many_fragment_witness:
  "many members_field \<and>
   dump_fuel demo_handlers demo_env 1 (demo_env (nested members_field)) =
     Some (Inr person_output) \<and>
   from_nested_schema (dump_fuel demo_handlers demo_env 2) demo_env members_field =
     Some (Inr [(''type'', JArr [JStr ''array'', JStr ''null'']),
                (''items'', JObj person_output)]) \<and>
   field_schema demo_handlers (dump_fuel demo_handlers demo_env 2) demo_env team
       (field_mapping (TYPE_MAPPING team)) members_field =
     Some (Inr [(''type'', JArr [JStr ''array'', JStr ''null'']),
                (''items'', JObj person_output)])"
proof -
  have h1: "many members_field" by code_simp
  have h2: "dump_fuel demo_handlers demo_env 1 (demo_env (nested members_field)) =
              Some (Inr person_output)"
    by code_simp
  have h3: "(1::nat) \<le> 2" by simp
  have r: "required members_field = False" by code_simp
  have a: "jsonschema_type_mapping members_field = None \<and>
           field_mapping (TYPE_MAPPING team) (field_class members_field) = None \<and>
           issubclass (field_class members_field) fields_Nested \<and>
           validators members_field = [] \<and> metadata members_field = []"
    by code_simp
  note T = nested_many_fragment[OF h1 h2 h3, of "field_mapping (TYPE_MAPPING team)" team,
      unfolded r if_False]
  show ?thesis
    using h1 h2 T[THEN conjunct1] T[THEN conjunct2, rule_format, OF a]
    by (intro conjI)
qed

section \<open>The metadata merger\<close>

lemma apply_metadata_spec:
  assumes "\<forall>v. map_of (metadata f) ''metadata'' = Some v \<longrightarrow> (\<exists>md. v = JObj md)"
  shows "apply_metadata f sch = Inr (spec_metadata_merger f sch)"
proof (cases "map_of (metadata f) ''metadata''")
  case None
  then show ?thesis
    by (simp add: apply_metadata_def dict_get_def spec_metadata_merger_def
        spec_set_if_found_def spec_found_metadata_def Let_def split: option.splits)
next
  case (Some v)
  with assms obtain md where "v = JObj md" by blast
  with Some show ?thesis
    by (simp add: apply_metadata_def dict_get_def spec_metadata_merger_def
        spec_set_if_found_def spec_found_metadata_def Let_def split: option.splits)
qed

lemma merger_title:
  "spec_found_metadata f ''title'' = Some t \<Longrightarrow> truthy t \<Longrightarrow>
     map_of (spec_metadata_merger f sch) ''title'' = Some t"
  by (simp add: spec_metadata_merger_def spec_set_if_found_def update_conv'
      split: option.splits)

lemma merger_description:
  "spec_found_metadata f ''description'' = Some d \<Longrightarrow> truthy d \<Longrightarrow>
     map_of (spec_metadata_merger f sch) ''description'' = Some d"
  by (simp add: spec_metadata_merger_def spec_set_if_found_def update_conv'
      split: option.splits)

lemma merger_unchanged:
  "(\<forall>v. spec_found_metadata f ''title'' = Some v \<longrightarrow> \<not> truthy v) \<Longrightarrow>
   (\<forall>v. spec_found_metadata f ''description'' = Some v \<longrightarrow> \<not> truthy v) \<Longrightarrow>
     spec_metadata_merger f sch = sch"
  by (simp add: spec_metadata_merger_def spec_set_if_found_def split: option.splits)

lemma field_schema_steps:
  assumes "field_schema hs dump env obj mp f = Some (Inr out)"
  shows "\<exists>s0 s1. starting_schema dump env mp f = Some (Inr s0) \<and>
                 apply_validators hs obj f s0 (validators f) = Inr s1 \<and>
                 apply_metadata f s1 = Inr out"
  using assms by (auto simp: field_schema_def split: option.splits sum.splits)

text \<open>
  C4. \<open>apply_metadata\<close> reads \<open>title\<close> and \<open>description\<close> from the direct metadata
  keys and from the nested \<open>metadata\<close> sub-mapping, preferring the direct value; it
  sets a key of the fragment only when the value found is truthy and leaves the
  fragment unchanged otherwise; and it is the last step of the field translation,
  after the starting fragment and the validators, so a truthy value found overrides
  the \<open>title\<close> or \<open>description\<close> set by the earlier steps.
\<close>

theorem metadata_merger_contract:
  assumes "\<forall>v. map_of (metadata f) ''metadata'' = Some v \<longrightarrow> (\<exists>md. v = JObj md)"
  shows "apply_metadata f sch = Inr (spec_metadata_merger f sch) \<and>
         (field_schema hs dump env obj mp f = Some (Inr out) \<longrightarrow>
            (\<exists>s0 s1. starting_schema dump env mp f = Some (Inr s0) \<and>
                      apply_validators hs obj f s0 (validators f) = Inr s1 \<and>
                      out = spec_metadata_merger f s1)) \<and>
         (spec_found_metadata f ''title'' = Some t \<and> truthy t \<longrightarrow>
            map_of (spec_metadata_merger f sch) ''title'' = Some t) \<and>
         (spec_found_metadata f ''description'' = Some d \<and> truthy d \<longrightarrow>
            map_of (spec_metadata_merger f sch) ''description'' = Some d) \<and>
         ((\<forall>v. spec_found_metadata f ''title'' = Some v \<longrightarrow> \<not> truthy v) \<and>
          (\<forall>v. spec_found_metadata f ''description'' = Some v \<longrightarrow> \<not> truthy v) \<longrightarrow>
            spec_metadata_merger f sch = sch)"
proof (intro conjI impI)
  show "apply_metadata f sch = Inr (spec_metadata_merger f sch)"
    by (rule apply_metadata_spec[OF assms])
next
  assume "field_schema hs dump env obj mp f = Some (Inr out)"
  from field_schema_steps[OF this] obtain s0 s1 where
    s: "starting_schema dump env mp f = Some (Inr s0)"
       "apply_validators hs obj f s0 (validators f) = Inr s1"
       "apply_metadata f s1 = Inr out"
    by blast
  from s(3) have "out = spec_metadata_merger f s1"
    by (simp add: apply_metadata_spec[OF assms])
  with s(1,2) show "\<exists>s0 s1. starting_schema dump env mp f = Some (Inr s0) \<and>
                      apply_validators hs obj f s0 (validators f) = Inr s1 \<and>
                      out = spec_metadata_merger f s1"
    by blast
next
  assume "spec_found_metadata f ''title'' = Some t \<and> truthy t"
  then show "map_of (spec_metadata_merger f sch) ''title'' = Some t"
    by (simp add: merger_title)
next
  assume "spec_found_metadata f ''description'' = Some d \<and> truthy d"
  then show "map_of (spec_metadata_merger f sch) ''description'' = Some d"
    by (simp add: merger_description)
next
  assume "(\<forall>v. spec_found_metadata f ''title'' = Some v \<longrightarrow> \<not> truthy v) \<and>
          (\<forall>v. spec_found_metadata f ''description'' = Some v \<longrightarrow> \<not> truthy v)"
  then show "spec_metadata_merger f sch = sch"
    by (simp add: merger_unchanged)
qed

theorem metadata_merger_contract_witness:
  "map_of (metadata titled_field) ''metadata'' =
     Some (JObj [(''title'', JStr ''Name''), (''description'', JStr ''As printed'')]) \<and>
   apply_metadata titled_field [(''title'', JStr ''name''), (''type'', JStr ''string'')] =
     Inr (spec_metadata_merger titled_field
            [(''title'', JStr ''name''), (''type'', JStr ''string'')]) \<and>
   spec_metadata_merger titled_field [(''title'', JStr ''name''), (''type'', JStr ''string'')] =
     [(''title'', JStr ''Full name''), (''type'', JStr ''string''),
      (''description'', JStr ''As printed'')] \<and>
   field_schema demo_handlers (\<lambda>s. None) demo_env person
       (field_mapping (TYPE_MAPPING person)) titled_field =
     Some (Inr [(''title'', JStr ''Full name''), (''type'', JStr ''string''),
                (''description'', JStr ''As printed'')])"
proof -
  have m: "map_of (metadata titled_field) ''metadata'' =
             Some (JObj [(''title'', JStr ''Name''), (''description'', JStr ''As printed'')])"
    by code_simp
  have h: "\<forall>v. map_of (metadata titled_field) ''metadata'' = Some v \<longrightarrow> (\<exists>md. v = JObj md)"
    by (simp add: m)
  note T = metadata_merger_contract[OF h,
      of "[(''title'', JStr ''name''), (''type'', JStr ''string'')]"]
  have a: "apply_metadata titled_field [(''title'', JStr ''name''), (''type'', JStr ''string'')] =
             Inr (spec_metadata_merger titled_field
                    [(''title'', JStr ''name''), (''type'', JStr ''string'')])"
    by (rule T[THEN conjunct1])
  have b: "spec_metadata_merger titled_field
             [(''title'', JStr ''name''), (''type'', JStr ''string'')] =
           [(''title'', JStr ''Full name''), (''type'', JStr ''string''),
            (''description'', JStr ''As printed'')]"
    by code_simp
  have c: "field_schema demo_handlers (\<lambda>s. None) demo_env person
               (field_mapping (TYPE_MAPPING person)) titled_field =
             Some (Inr [(''title'', JStr ''Full name''), (''type'', JStr ''string''),
                        (''description'', JStr ''As printed'')])"
    by code_simp
  show ?thesis
    by (intro conjI m a b c)
qed

section \<open>Unsupported fields\<close>

lemma unsupported_starting_schema:
  assumes "jsonschema_type_mapping f = None"
    and "mp (field_class f) = None"
    and "\<not> issubclass (field_class f) fields_Nested"
  shows "starting_schema dump env mp f =
           Some (Inl (ValueError (''unsupported field type '' @ rendering f)))"
  using assms by (simp add: starting_schema_def)

lemma unsupported_field_schema:
  assumes "jsonschema_type_mapping f = None"
    and "mp (field_class f) = None"
    and "\<not> issubclass (field_class f) fields_Nested"
  shows "field_schema hs dump env obj mp f =
           Some (Inl (ValueError (''unsupported field type '' @ rendering f)))"
  by (simp add: field_schema_def unsupported_starting_schema[where mp=mp, OF assms])

lemma properties_loop_failing_member:
  assumes "(k, f) \<in> set items"
    and "field_schema hs dump env obj mp f = Some (Inl e)"
  shows "properties_loop hs dump env obj mp props items \<noteq> Some (Inr out)"
  using assms(1)
proof (induction items arbitrary: props)
  case Nil
  then show ?case by simp
next
  case (Cons kg items)
  obtain k' g where kg: "kg = (k', g)" by (cases kg)
  show ?case
  proof (cases "g = f")
    case True
    then show ?thesis using assms(2) by (simp add: kg)
  next
    case False
    with Cons.prems have "(k, f) \<in> set items" by (auto simp: kg)
    from Cons.IH[OF this] show ?thesis
      by (simp add: kg split: option.splits sum.splits)
  qed
qed

lemma properties_loop_first_error:
  assumes "\<forall>(k', g) \<in> set pre. \<exists>s. field_schema hs dump env obj mp g = Some (Inr s)"
    and "field_schema hs dump env obj mp f = Some (Inl e)"
  shows "properties_loop hs dump env obj mp props (pre @ (k, f) # post) = Some (Inl e)"
  using assms(1)
proof (induction pre arbitrary: props)
  case Nil
  then show ?case using assms(2) by simp
next
  case (Cons kg pre)
  obtain k' g where kg: "kg = (k', g)" by (cases kg)
  from Cons.prems obtain s where s: "field_schema hs dump env obj mp g = Some (Inr s)"
    by (auto simp: kg)
  from Cons.prems have "\<forall>(k', g) \<in> set pre. \<exists>s. field_schema hs dump env obj mp g = Some (Inr s)"
    by simp
  from Cons.IH[OF this] show ?case by (simp add: kg s)
qed

lemma failing_field_no_output:
  assumes "(k, f) \<in> set (schema_fields obj)"
    and "\<And>dump. field_schema hs dump env obj (field_mapping (TYPE_MAPPING obj)) f = Some (Inl e)"
  shows "dump_fuel hs env n obj \<noteq> Some (Inr out)"
proof (cases n)
  case 0
  then show ?thesis by simp
next
  case (Suc m)
  have "(k, f) \<in> set (sorted_items (schema_fields obj))" using assms(1) by simp
  from properties_loop_failing_member[OF this assms(2)]
  show ?thesis
    by (auto simp: Suc JSONSchema_dump_def get_properties_def split: option.splits sum.splits)
qed

lemma failing_field_error:
  assumes "sorted_items (schema_fields obj) = pre @ (k, f) # post"
    and "\<forall>(k', g) \<in> set pre.
           \<exists>s. field_schema hs dump env obj (field_mapping (TYPE_MAPPING obj)) g = Some (Inr s)"
    and "field_schema hs dump env obj (field_mapping (TYPE_MAPPING obj)) f = Some (Inl e)"
  shows "JSONSchema_dump hs dump env obj = Some (Inl e)"
  using properties_loop_first_error[OF assms(2,3), of "[]" k post]
  by (simp add: JSONSchema_dump_def get_properties_def assms(1))

text \<open>
  C5, as the claim states it, fails twice. A nested-schema field has no entry in the
  mapping and no override either, and it is translated, not refused (\<open>lead_field\<close>);
  and the message of the error is built from \<open>str(field)\<close> alone, which for the host
  framework's fields gives the class and the constructor arguments but not the field's
  name (\<open>total_field\<close>).
\<close>

theorem unsupported_field_counterexample:
  "jsonschema_type_mapping lead_field = None \<and>
   field_mapping (TYPE_MAPPING team) (field_class lead_field) = None \<and>
   field_schema demo_handlers (dump_fuel demo_handlers demo_env 1) demo_env team
       (field_mapping (TYPE_MAPPING team)) lead_field =
     Some (Inr person_output) \<and>
   name total_field = ''total'' \<and>
   dump_fuel demo_handlers demo_env 1 invoice =
     Some (Inl (ValueError (''unsupported field type '' @ rendering total_field))) \<and>
   \<not> sublist (name total_field) (''unsupported field type '' @ rendering total_field)"
proof -
  have a: "jsonschema_type_mapping lead_field = None" by code_simp
  have b: "field_mapping (TYPE_MAPPING team) (field_class lead_field) = None" by code_simp
  have c: "field_schema demo_handlers (dump_fuel demo_handlers demo_env 1) demo_env team
             (field_mapping (TYPE_MAPPING team)) lead_field = Some (Inr person_output)"
    by code_simp
  have d: "name total_field = ''total''" by code_simp
  have e: "dump_fuel demo_handlers demo_env 1 invoice =
             Some (Inl (ValueError (''unsupported field type '' @ rendering total_field)))"
    by code_simp
  have f: "\<not> sublist (name total_field) (''unsupported field type '' @ rendering total_field)"
    by code_simp
  show ?thesis by (intro conjI a b c d e f)
qed

text \<open>
  C5, amended. A field without a \<open>_jsonschema_type_mapping\<close> attribute whose class has no
  entry in the mapping and that is not a nested-schema reference makes the translation
  fail with a \<open>ValueError\<close>; the message is \<open>unsupported field type\<close> followed by
  \<open>str(field)\<close>. The translation of a schema holding such a field never returns an
  output, and when the fields sorted before it translate, it returns exactly this
  error.
\<close>

theorem unsupported_field_aborts:
  assumes "jsonschema_type_mapping f = None"
    and "field_mapping (TYPE_MAPPING obj) (field_class f) = None"
    and "\<not> issubclass (field_class f) fields_Nested"
    and "sorted_items (schema_fields obj) = pre @ (k, f) # post"
  shows "field_schema hs dump env obj (field_mapping (TYPE_MAPPING obj)) f =
           Some (Inl (ValueError (''unsupported field type '' @ rendering f))) \<and>
         (\<forall>n out. dump_fuel hs env n obj \<noteq> Some (Inr out)) \<and>
         ((\<forall>(k', g) \<in> set pre.
             \<exists>s. field_schema hs (dump_fuel hs env n) env obj
                    (field_mapping (TYPE_MAPPING obj)) g = Some (Inr s)) \<longrightarrow>
          dump_fuel hs env (Suc n) obj =
            Some (Inl (ValueError (''unsupported field type '' @ rendering f))))"
proof -
  note u = unsupported_field_schema[where mp="field_mapping (TYPE_MAPPING obj)", OF assms(1,2,3)]
  have "(k, f) \<in> set (sorted_items (schema_fields obj))" by (simp add: assms(4))
  then have mem: "(k, f) \<in> set (schema_fields obj)" by simp
  have a: "\<forall>n out. dump_fuel hs env n obj \<noteq> Some (Inr out)"
    using failing_field_no_output[OF mem u] by blast
  have b: "dump_fuel hs env (Suc n) obj =
            Some (Inl (ValueError (''unsupported field type '' @ rendering f)))"
    if "\<forall>(k', g) \<in> set pre.
             \<exists>s. field_schema hs (dump_fuel hs env n) env obj
                    (field_mapping (TYPE_MAPPING obj)) g = Some (Inr s)"
    using failing_field_error[OF assms(4) that u] by simp
  show ?thesis using u a b by blast
qed

theorem unsupported_field_aborts_witness:
  "sorted_items (schema_fields invoice) = [(''age'', age_field)] @ (''total'', total_field) # [] \<and>
   field_schema demo_handlers (\<lambda>s. None) demo_env invoice
       (field_mapping (TYPE_MAPPING invoice)) total_field =
     Some (Inl (ValueError (''unsupported field type '' @ rendering total_field))) \<and>
   dump_fuel demo_handlers demo_env 3 invoice \<noteq> Some (Inr []) \<and>
   dump_fuel demo_handlers demo_env (Suc 0) invoice =
     Some (Inl (ValueError (''unsupported field type '' @ rendering total_field)))"
proof -
  have h1: "jsonschema_type_mapping total_field = None" by code_simp
  have h2: "field_mapping (TYPE_MAPPING invoice) (field_class total_field) = None" by code_simp
  have h3: "\<not> issubclass (field_class total_field) fields_Nested" by code_simp
  have h4: "sorted_items (schema_fields invoice) =
              [(''age'', age_field)] @ (''total'', total_field) # []"
    by code_simp
  have age: "field_schema demo_handlers (dump_fuel demo_handlers demo_env 0) demo_env invoice
               (field_mapping (TYPE_MAPPING invoice)) age_field =
             Some (Inr [(''title'', JStr ''age''), (''type'', JStr ''number''),
                        (''format'', JStr ''integer'')])"
    by code_simp
  have pre: "\<forall>(k', g) \<in> set [(''age'', age_field)].
               \<exists>s. field_schema demo_handlers (dump_fuel demo_handlers demo_env 0) demo_env
                      invoice (field_mapping (TYPE_MAPPING invoice)) g = Some (Inr s)"
    using age by simp
  note T = unsupported_field_aborts[OF h1 h2 h3 h4, of demo_handlers _ demo_env 0]
  have a: "field_schema demo_handlers (\<lambda>s. None) demo_env invoice
             (field_mapping (TYPE_MAPPING invoice)) total_field =
           Some (Inl (ValueError (''unsupported field type '' @ rendering total_field)))"
    by (rule T[THEN conjunct1])
  have b: "dump_fuel demo_handlers demo_env 3 invoice \<noteq> Some (Inr [])"
    by (rule T[THEN conjunct2, THEN conjunct1, rule_format])
  have c: "dump_fuel demo_handlers demo_env (Suc 0) invoice =
             Some (Inl (ValueError (''unsupported field type '' @ rendering total_field)))"
    by (rule T[THEN conjunct2, THEN conjunct2, THEN mp, OF pre])
  show ?thesis by (intro conjI h4 a b c)
qed

section \<open>Dispatch on the exact class\<close>

text \<open>
  C10. \<open>field.__class__ in mapping\<close> looks the field's own class up. A field whose
  class is a strict subclass of a mapped class, with no entry of its own, no
  \<open>_jsonschema_type_mapping\<close> attribute and not a nested-schema reference, raises the
  unsupported-field error; the parent's fragment is not used, and the translation of
  a schema holding the field returns no output.
\<close>

theorem exact_class_dispatch:
  assumes "strict_subclass (field_class f) parent"
    and "field_mapping (TYPE_MAPPING obj) parent = Some T"
    and "field_mapping (TYPE_MAPPING obj) (field_class f) = None"
    and "jsonschema_type_mapping f = None"
    and "\<not> issubclass (field_class f) fields_Nested"
    and "(k, f) \<in> set (schema_fields obj)"
  shows "starting_schema dump env (field_mapping (TYPE_MAPPING obj)) f =
           Some (Inl (ValueError (''unsupported field type '' @ rendering f))) \<and>
         starting_schema dump env (field_mapping (TYPE_MAPPING obj)) f \<noteq>
           Some (from_python_type f T) \<and>
         field_schema hs dump env obj (field_mapping (TYPE_MAPPING obj)) f =
           Some (Inl (ValueError (''unsupported field type '' @ rendering f))) \<and>
         (\<forall>n out. dump_fuel hs env n obj \<noteq> Some (Inr out))"
proof -
  note s = unsupported_starting_schema[where mp="field_mapping (TYPE_MAPPING obj)", OF assms(4,3,5)]
  note u = unsupported_field_schema[where mp="field_mapping (TYPE_MAPPING obj)", OF assms(4,3,5)]
  have "from_python_type f T \<noteq> Inl (ValueError (''unsupported field type '' @ rendering f))"
    by (simp add: from_python_type_def Let_def split: option.splits)
  then have d: "starting_schema dump env (field_mapping (TYPE_MAPPING obj)) f \<noteq>
           Some (from_python_type f T)"
    unfolding s by simp
  have a: "\<forall>n out. dump_fuel hs env n obj \<noteq> Some (Inr out)"
    using failing_field_no_output[OF assms(6) u] by blast
  show ?thesis using s d u a by blast
qed

theorem exact_class_dispatch_witness:
  "strict_subclass (field_class slug_field) fields_String \<and>
   field_mapping (TYPE_MAPPING article) fields_String = Some binary_type \<and>
   starting_schema (\<lambda>s. None) demo_env (field_mapping (TYPE_MAPPING article)) slug_field =
     Some (Inl (ValueError (''unsupported field type '' @ rendering slug_field))) \<and>
   field_schema demo_handlers (\<lambda>s. None) demo_env article
       (field_mapping (TYPE_MAPPING article)) slug_field =
     Some (Inl (ValueError (''unsupported field type '' @ rendering slug_field))) \<and>
   dump_fuel demo_handlers demo_env 2 article \<noteq> Some (Inr [])"
proof -
  have h1: "strict_subclass (field_class slug_field) fields_String" by code_simp
  have h2: "field_mapping (TYPE_MAPPING article) fields_String = Some binary_type" by code_simp
  have h3: "field_mapping (TYPE_MAPPING article) (field_class slug_field) = None" by code_simp
  have h4: "jsonschema_type_mapping slug_field = None" by code_simp
  have h5: "\<not> issubclass (field_class slug_field) fields_Nested" by code_simp
  have h6: "(''slug'', slug_field) \<in> set (schema_fields article)" by code_simp
  note T = exact_class_dispatch[OF h1 h2 h3 h4 h5 h6, of "\<lambda>s. None" demo_env demo_handlers]
  have a: "starting_schema (\<lambda>s. None) demo_env (field_mapping (TYPE_MAPPING article))
             slug_field =
           Some (Inl (ValueError (''unsupported field type '' @ rendering slug_field)))"
    by (rule T[THEN conjunct1])
  have b: "field_schema demo_handlers (\<lambda>s. None) demo_env article
             (field_mapping (TYPE_MAPPING article)) slug_field =
           Some (Inl (ValueError (''unsupported field type '' @ rendering slug_field)))"
    by (rule T[THEN conjunct2, THEN conjunct2, THEN conjunct1])
  have c: "dump_fuel demo_handlers demo_env 2 article \<noteq> Some (Inr [])"
    by (rule T[THEN conjunct2, THEN conjunct2, THEN conjunct2, rule_format])
  show ?thesis by (intro conjI h1 h2 a b c)
qed

section \<open>The resolution order\<close>

text \<open>
  C6, as the claim states it, puts the nested-schema branch before the type mapping
  table. The source tests the mapping first: in a schema whose \<open>TYPE_MAPPING\<close> names the
  nested field class, a nested-schema field gets the table's fragment and its schema is
  not translated.
\<close>

theorem resolution_order_counterexample:
  "jsonschema_type_mapping lead_field = None \<and>
   issubclass (field_class lead_field) fields_Nested \<and>
   from_nested_schema (dump_fuel demo_handlers demo_env 1) demo_env lead_field =
     Some (Inr person_output) \<and>
   starting_schema (dump_fuel demo_handlers demo_env 1) demo_env
       (field_mapping (TYPE_MAPPING odd_schema)) lead_field =
     Some (Inr [(''title'', JStr ''lead''), (''type'', JStr ''object'')])"
proof -
  have a: "jsonschema_type_mapping lead_field = None" by code_simp
  have b: "issubclass (field_class lead_field) fields_Nested" by code_simp
  have c: "from_nested_schema (dump_fuel demo_handlers demo_env 1) demo_env lead_field =
             Some (Inr person_output)"
    by code_simp
  have d: "starting_schema (dump_fuel demo_handlers demo_env 1) demo_env
             (field_mapping (TYPE_MAPPING odd_schema)) lead_field =
           Some (Inr [(''title'', JStr ''lead''), (''type'', JStr ''object'')])"
    by code_simp
  show ?thesis by (intro conjI a b c d)
qed

text \<open>
  C6, amended. The starting fragment is resolved in this order, the first match
  winning: the field's own \<open>_jsonschema_type_mapping()\<close>, verbatim; else the type
  mapping table, when the field's class has an entry in the mapping; else the
  recursion into the schema translator, when the field is a nested-schema reference;
  else the unsupported-field error.
\<close>

theorem resolution_order:
  "(jsonschema_type_mapping f = Some s \<longrightarrow>
      starting_schema dump env mp f = Some (Inr s)) \<and>
   (jsonschema_type_mapping f = None \<and> mp (field_class f) = Some T \<longrightarrow>
      starting_schema dump env mp f = Some (from_python_type f T)) \<and>
   (jsonschema_type_mapping f = None \<and> mp (field_class f) = None \<and>
    issubclass (field_class f) fields_Nested \<longrightarrow>
      starting_schema dump env mp f = from_nested_schema dump env f) \<and>
   (jsonschema_type_mapping f = None \<and> mp (field_class f) = None \<and>
    \<not> issubclass (field_class f) fields_Nested \<longrightarrow>
      starting_schema dump env mp f =
        Some (Inl (ValueError (''unsupported field type '' @ rendering f))))"
  by (simp add: starting_schema_def)

theorem resolution_order_witness:
  "starting_schema (dump_fuel demo_handlers demo_env 1) demo_env
       (field_mapping (TYPE_MAPPING odd_schema)) colour_field =
     Some (Inr [(''type'', JStr ''string''), (''format'', JStr ''colour'')]) \<and>
   starting_schema (dump_fuel demo_handlers demo_env 1) demo_env
       (field_mapping (TYPE_MAPPING odd_schema)) lead_field =
     Some (from_python_type lead_field py_dict) \<and>
   starting_schema (dump_fuel demo_handlers demo_env 1) demo_env
       (field_mapping (TYPE_MAPPING team)) lead_field =
     from_nested_schema (dump_fuel demo_handlers demo_env 1) demo_env lead_field \<and>
   starting_schema (dump_fuel demo_handlers demo_env 1) demo_env
       (field_mapping (TYPE_MAPPING team)) total_field =
     Some (Inl (ValueError (''unsupported field type '' @ rendering total_field)))"
proof -
  have h1: "jsonschema_type_mapping colour_field =
              Some [(''type'', JStr ''string''), (''format'', JStr ''colour'')]"
    by code_simp
  have h2: "jsonschema_type_mapping lead_field = None \<and>
            field_mapping (TYPE_MAPPING odd_schema) (field_class lead_field) = Some py_dict"
    by code_simp
  have h3: "jsonschema_type_mapping lead_field = None \<and>
            field_mapping (TYPE_MAPPING team) (field_class lead_field) = None \<and>
            issubclass (field_class lead_field) fields_Nested"
    by code_simp
  have h4: "jsonschema_type_mapping total_field = None \<and>
            field_mapping (TYPE_MAPPING team) (field_class total_field) = None \<and>
            \<not> issubclass (field_class total_field) fields_Nested"
    by code_simp
  have a: "starting_schema (dump_fuel demo_handlers demo_env 1) demo_env
             (field_mapping (TYPE_MAPPING odd_schema)) colour_field =
           Some (Inr [(''type'', JStr ''string''), (''format'', JStr ''colour'')])"
    by (rule resolution_order[where mp="field_mapping (TYPE_MAPPING odd_schema)",
          THEN conjunct1, rule_format, OF h1])
  have b: "starting_schema (dump_fuel demo_handlers demo_env 1) demo_env
             (field_mapping (TYPE_MAPPING odd_schema)) lead_field =
           Some (from_python_type lead_field py_dict)"
    by (rule resolution_order[where mp="field_mapping (TYPE_MAPPING odd_schema)",
          THEN conjunct2, THEN conjunct1, rule_format, OF h2])
  have c: "starting_schema (dump_fuel demo_handlers demo_env 1) demo_env
             (field_mapping (TYPE_MAPPING team)) lead_field =
           from_nested_schema (dump_fuel demo_handlers demo_env 1) demo_env lead_field"
    by (rule resolution_order[where mp="field_mapping (TYPE_MAPPING team)",
          THEN conjunct2, THEN conjunct2, THEN conjunct1, rule_format, OF h3])
  have d: "starting_schema (dump_fuel demo_handlers demo_env 1) demo_env
             (field_mapping (TYPE_MAPPING team)) total_field =
           Some (Inl (ValueError (''unsupported field type '' @ rendering total_field)))"
    by (rule resolution_order[where mp="field_mapping (TYPE_MAPPING team)",
          THEN conjunct2, THEN conjunct2, THEN conjunct2, rule_format, OF h4])
  show ?thesis by (intro conjI a b c d)
qed

section \<open>Validators without a handler\<close>

lemma FIELD_VALIDATORS_unsupported:
  "validator_class u \<notin> {validate_Length, validate_OneOf, validate_Range} \<Longrightarrow>
     FIELD_VALIDATORS hs (validator_class u) = None"
  by (cases "validator_class u") auto

lemma FIELD_VALIDATORS_range:
  "FIELD_VALIDATORS hs c = Some h \<Longrightarrow>
     h \<in> {handle_length hs, handle_one_of hs, handle_range hs}"
  by (cases c) auto

lemma apply_validators_skip:
  assumes "FIELD_VALIDATORS hs (validator_class u) = None"
  shows "apply_validators hs obj f sch (vs1 @ u # vs2) = apply_validators hs obj f sch (vs1 @ vs2)"
  by (induction vs1 arbitrary: sch) (auto simp: assms split: option.splits sum.splits)

lemma apply_validators_field:
  assumes "handlers_ignore_validators hs"
  shows "apply_validators hs obj (f\<lparr>validators := ws\<rparr>) sch vs = apply_validators hs obj f sch vs"
proof (induction vs arbitrary: sch)
  case Nil
  then show ?case by simp
next
  case (Cons v vs)
  show ?case
  proof (cases "FIELD_VALIDATORS hs (validator_class v)")
    case None
    then show ?thesis by (simp add: Cons.IH)
  next
    case (Some h)
    from FIELD_VALIDATORS_range[OF Some] assms
    have "h sch (f\<lparr>validators := ws\<rparr>) v obj = h sch f v obj"
      unfolding handlers_ignore_validators_def by blast
    then show ?thesis by (simp add: Some Cons.IH split: sum.splits)
  qed
qed

lemma from_python_type_validators:
  "from_python_type (f\<lparr>validators := ws\<rparr>) T = from_python_type f T"
  by (auto simp: from_python_type_def attribute_or_name_def Let_def split: option.splits)

lemma from_nested_schema_validators:
  "from_nested_schema dump env (f\<lparr>validators := ws\<rparr>) = from_nested_schema dump env f"
  by (auto simp: from_nested_schema_def split: option.splits sum.splits)

lemma starting_schema_validators:
  "starting_schema dump env mp (f\<lparr>validators := ws\<rparr>) = starting_schema dump env mp f"
  by (auto simp: starting_schema_def from_python_type_validators from_nested_schema_validators
      split: option.splits)

lemma apply_metadata_validators:
  "apply_metadata (f\<lparr>validators := ws\<rparr>) sch = apply_metadata f sch"
  by (auto simp: apply_metadata_def Let_def split: json.splits)

text \<open>
  C7. A validator whose class is none of \<open>Length\<close>, \<open>OneOf\<close>, \<open>Range\<close> is skipped by the
  loop over \<open>field.validators\<close>: alone it returns the fragment unchanged and raises
  nothing, anywhere in the list the loop returns what it returns without it, and
  (the handlers not reading the field's list of validators) the field's fragment is
  the fragment of the field without that validator.
\<close>

theorem unsupported_validator_skipped:
  assumes "validator_class u \<notin> {validate_Length, validate_OneOf, validate_Range}"
  shows "apply_validators hs obj f sch [u] = Inr sch \<and>
         apply_validators hs obj f sch (vs1 @ u # vs2) =
           apply_validators hs obj f sch (vs1 @ vs2) \<and>
         (handlers_ignore_validators hs \<longrightarrow>
            field_schema hs dump env obj mp (f\<lparr>validators := vs1 @ u # vs2\<rparr>) =
              field_schema hs dump env obj mp (f\<lparr>validators := vs1 @ vs2\<rparr>))"
proof -
  note n = FIELD_VALIDATORS_unsupported[OF assms, of hs]
  have a: "apply_validators hs obj f sch [u] = Inr sch" by (simp add: n)
  have b: "apply_validators hs obj g s (vs1 @ u # vs2) = apply_validators hs obj g s (vs1 @ vs2)"
    for g s
    by (rule apply_validators_skip[OF n])
  have c: "field_schema hs dump env obj mp (f\<lparr>validators := vs1 @ u # vs2\<rparr>) =
             field_schema hs dump env obj mp (f\<lparr>validators := vs1 @ vs2\<rparr>)"
    if i: "handlers_ignore_validators hs"
    unfolding field_schema_def starting_schema_validators apply_metadata_validators
    by (simp add: apply_validators_field[OF i] b cong: option.case_cong sum.case_cong)
  show ?thesis using a b c by blast
qed

theorem unsupported_validator_skipped_witness:
  "validator_class regexp_validator \<notin> {validate_Length, validate_OneOf, validate_Range} \<and>
   handlers_ignore_validators demo_handlers \<and>
   apply_validators demo_handlers person name_field [(''type'', JStr ''string'')]
       [regexp_validator] =
     Inr [(''type'', JStr ''string'')] \<and>
   field_schema demo_handlers (\<lambda>s. None) demo_env person (field_mapping (TYPE_MAPPING person))
       (name_field\<lparr>validators := validators name_field @ regexp_validator # []\<rparr>) =
     field_schema demo_handlers (\<lambda>s. None) demo_env person (field_mapping (TYPE_MAPPING person))
       (name_field\<lparr>validators := validators name_field @ []\<rparr>) \<and>
   field_schema demo_handlers (\<lambda>s. None) demo_env person (field_mapping (TYPE_MAPPING person))
       (name_field\<lparr>validators := validators name_field @ []\<rparr>) =
     Some (Inr [(''title'', JStr ''name''), (''type'', JStr ''string''),
                (''maxLength'', JNum 50)])"
proof -
  have h: "validator_class regexp_validator \<notin> {validate_Length, validate_OneOf, validate_Range}"
    by (simp add: regexp_validator_def)
  have i: "handlers_ignore_validators demo_handlers"
    by (simp add: handlers_ignore_validators_def demo_handlers_def)
  note T = unsupported_validator_skipped[OF h, of demo_handlers person name_field
      "[(''type'', JStr ''string'')]" "validators name_field" "[]" "\<lambda>s. None" demo_env
      "field_mapping (TYPE_MAPPING person)"]
  have a: "apply_validators demo_handlers person name_field [(''type'', JStr ''string'')]
             [regexp_validator] = Inr [(''type'', JStr ''string'')]"
    by (rule T[THEN conjunct1])
  have b: "field_schema demo_handlers (\<lambda>s. None) demo_env person
             (field_mapping (TYPE_MAPPING person))
             (name_field\<lparr>validators := validators name_field @ regexp_validator # []\<rparr>) =
           field_schema demo_handlers (\<lambda>s. None) demo_env person
             (field_mapping (TYPE_MAPPING person))
             (name_field\<lparr>validators := validators name_field @ []\<rparr>)"
    by (rule T[THEN conjunct2, THEN conjunct2, THEN mp, OF i])
  have c: "field_schema demo_handlers (\<lambda>s. None) demo_env person
             (field_mapping (TYPE_MAPPING person))
             (name_field\<lparr>validators := validators name_field @ []\<rparr>) =
           Some (Inr [(''title'', JStr ''name''), (''type'', JStr ''string''),
                      (''maxLength'', JNum 50)])"
    by code_simp
  show ?thesis by (intro conjI h i a b c)
qed

section \<open>Determinism and the order of the fields\<close>

lemma apply_validators_obj:
  assumes "handlers_agree_on hs obj obj'"
  shows "apply_validators hs obj' f sch vs = apply_validators hs obj f sch vs"
proof (induction vs arbitrary: sch)
  case Nil
  then show ?case by simp
next
  case (Cons v vs)
  show ?case
  proof (cases "FIELD_VALIDATORS hs (validator_class v)")
    case None
    then show ?thesis by (simp add: Cons.IH)
  next
    case (Some h)
    from FIELD_VALIDATORS_range[OF Some] assms
    have "h sch f v obj' = h sch f v obj"
      unfolding handlers_agree_on_def by blast
    then show ?thesis by (simp add: Some Cons.IH split: sum.splits)
  qed
qed

lemma field_schema_obj:
  assumes "handlers_agree_on hs obj obj'"
  shows "field_schema hs dump env obj' mp f = field_schema hs dump env obj mp f"
  by (simp add: field_schema_def apply_validators_obj[OF assms]
      cong: option.case_cong sum.case_cong)

lemma properties_loop_obj:
  assumes "handlers_agree_on hs obj obj'"
  shows "properties_loop hs dump env obj' mp props items =
           properties_loop hs dump env obj mp props items"
  by (induction items arbitrary: props)
     (auto simp: field_schema_obj[OF assms] split: option.splits sum.splits)

text \<open>
  C8. The translation is a function of its input, so translating a schema twice gives
  the same output. The fields are visited in the lexicographic order of their names
  (the keys of \<open>obj.fields\<close>), for \<open>properties\<close> and for \<open>required\<close> alike, whatever the
  order of their declaration: two schemas with the same \<open>TYPE_MAPPING\<close> and the same
  fields, declared in any two orders, have the same sorted items, the same
  \<open>properties\<close>, the same \<open>required\<close> and the same translation (the handlers
  returning the same for both schema objects).
\<close>

theorem field_order_independent:
  assumes "distinct (map fst (schema_fields obj))"
    and "mset (schema_fields obj') = mset (schema_fields obj)"
    and "TYPE_MAPPING obj' = TYPE_MAPPING obj"
    and "handlers_agree_on hs obj obj'"
  shows "sorted (map fst (sorted_items (schema_fields obj))) \<and>
         sorted_items (schema_fields obj') = sorted_items (schema_fields obj) \<and>
         get_properties hs dump env obj' = get_properties hs dump env obj \<and>
         get_required obj' = get_required obj \<and>
         get_required obj =
           map (name \<circ> snd) (filter (required \<circ> snd) (sorted_items (schema_fields obj))) \<and>
         JSONSchema_dump hs dump env obj' = JSONSchema_dump hs dump env obj \<and>
         dump_fuel hs env n obj' = dump_fuel hs env n obj"
proof -
  note s = sorted_items_perm[OF assms(1,2)]
  have p: "get_properties hs d env obj' = get_properties hs d env obj" for d
    by (simp add: get_properties_def s assms(3) properties_loop_obj[OF assms(4)])
  have r: "get_required obj' = get_required obj"
    by (simp add: get_required_def s)
  have j: "JSONSchema_dump hs d env obj' = JSONSchema_dump hs d env obj" for d
    by (simp add: JSONSchema_dump_def p r cong: option.case_cong sum.case_cong)
  have f: "dump_fuel hs env n obj' = dump_fuel hs env n obj"
    by (cases n) (simp_all add: j)
  show ?thesis
    using sorted_sorted_items s p r get_required_filter j f by blast
qed

theorem field_order_independent_witness:
  "distinct (map fst (schema_fields person)) \<and>
   mset (schema_fields person_redeclared) = mset (schema_fields person) \<and>
   handlers_agree_on demo_handlers person person_redeclared \<and>
   sorted_items (schema_fields person_redeclared) = sorted_items (schema_fields person) \<and>
   sorted_items (schema_fields person) = [(''age'', age_field), (''name'', name_field)] \<and>
   dump_fuel demo_handlers demo_env 1 person_redeclared =
     dump_fuel demo_handlers demo_env 1 person \<and>
   dump_fuel demo_handlers demo_env 1 person = Some (Inr person_output)"
proof -
  have h1: "distinct (map fst (schema_fields person))" by code_simp
  have h2: "mset (schema_fields person_redeclared) = mset (schema_fields person)"
    by (simp add: person_def person_redeclared_def)
  have h3: "TYPE_MAPPING person_redeclared = TYPE_MAPPING person"
    by (simp add: person_def person_redeclared_def)
  have h4: "handlers_agree_on demo_handlers person person_redeclared"
    by (simp add: handlers_agree_on_def demo_handlers_def)
  note T = field_order_independent[OF h1 h2 h3 h4, of "\<lambda>s. None" demo_env 1]
  have a: "sorted_items (schema_fields person_redeclared) = sorted_items (schema_fields person)"
    by (rule T[THEN conjunct2, THEN conjunct1])
  have b: "sorted_items (schema_fields person) = [(''age'', age_field), (''name'', name_field)]"
    by code_simp
  have c: "dump_fuel demo_handlers demo_env 1 person_redeclared =
             dump_fuel demo_handlers demo_env 1 person"
    using T by (elim conjE)
  have d: "dump_fuel demo_handlers demo_env 1 person = Some (Inr person_output)"
    by code_simp
  show ?thesis by (intro conjI h1 h2 h4 a b c d)
qed

section \<open>The depth of the recursion\<close>
























end
